theory Spec2Isabelle
  imports Main "HOL-Library.Word"
begin

unbundle bit_operations_syntax

section \<open>Values of the Go runtime and of math/big\<close>

text \<open>
  A Go panic is a value of type \<open>error\<close>: \<open>NilDereference\<close> is the run-time panic of a
  method called with a nil \<open>*big.Int\<close>, \<open>DivisionByZero\<close> the panic of \<open>Mod\<close> with a zero
  modulus, \<open>InvalidPoint\<close> the panic of crypto/elliptic when an operation is called on
  a point that is not on the curve. A function that can panic returns \<open>error + 'a\<close>,
  with \<open>Inl\<close> for the panic.
\<close>

datatype error = NilDereference | DivisionByZero | InvalidPoint

type_synonym byte = "8 word"

text \<open>
  \<open>big.Int.Mod\<close> is the Euclidean modulus: for a nonzero modulus the result lies in
  \<open>[0, |m|)\<close>. Callers test for the zero modulus before, where Go panics.
\<close>

definition Mod :: "int \<Rightarrow> int \<Rightarrow> int" where
  "Mod a m = a mod \<bar>m\<bar>"

text \<open>
  \<open>big.Int.ModInverse g n\<close>: the inverse of \<open>g\<close> in the ring of integers modulo \<open>n\<close>, in
  \<open>[0, |n|)\<close>, and nil (\<open>None\<close>) when \<open>g\<close> and \<open>n\<close> are not relatively prime. The
  cofactor comes from the extended Euclidean algorithm \<open>xgcd\<close>, which returns \<open>(u, v)\<close>
  with \<open>u * a + v * b = gcd a b\<close>.
\<close>

function xgcd :: "nat \<Rightarrow> nat \<Rightarrow> int \<times> int" where
  "xgcd a b =
     (if b = 0 then (1, 0)
      else (case xgcd b (a mod b) of (u, v) \<Rightarrow> (v, u - v * int (a div b))))"
  by pat_completeness auto
termination
  by (relation "measure snd") auto

declare xgcd.simps [simp del]

definition ModInverse :: "int \<Rightarrow> int \<Rightarrow> int option" where
  "ModInverse g m =
     (let m' = \<bar>m\<bar>; g' = g mod m' in
      if m' = 0 \<or> gcd g' m' \<noteq> 1 then None
      else Some (fst (xgcd (nat g') (nat m')) mod m'))"

text \<open>
  \<open>big.Int.Exp b e m\<close> for an exponent \<open>e \<ge> 0\<close> and a modulus \<open>m \<noteq> 0\<close> (the only use,
  in \<open>sqrt\<close>, has both): \<open>b ^ e mod |m|\<close>, computed by repeated squaring.
\<close>

fun Exp_nat :: "int \<Rightarrow> nat \<Rightarrow> int \<Rightarrow> int" where
  "Exp_nat b e m =
     (if e = 0 then 1 mod m
      else (let h = Exp_nat b (e div 2) m; sq = (h * h) mod m
            in if odd e then (sq * b) mod m else sq))"

declare Exp_nat.simps [simp del]

definition Exp :: "int \<Rightarrow> int \<Rightarrow> int \<Rightarrow> int" where
  "Exp b e m = Exp_nat b (nat e) \<bar>m\<bar>"

text \<open>\<open>big.Int.Bit\<close> (of the two's complement) and \<open>big.Int.BitLen\<close> (of the absolute value).\<close>

definition Bit :: "int \<Rightarrow> nat \<Rightarrow> nat" where
  "Bit a i = (if bit a i then 1 else 0)"

fun BitLen_nat :: "nat \<Rightarrow> nat" where
  "BitLen_nat k = (if k = 0 then 0 else Suc (BitLen_nat (k div 2)))"

declare BitLen_nat.simps [simp del]

definition BitLen :: "int \<Rightarrow> nat" where
  "BitLen a = BitLen_nat (nat \<bar>a\<bar>)"

text \<open>\<open>big.Int.SetBytes\<close> reads a big-endian unsigned integer.\<close>

definition SetBytes :: "byte list \<Rightarrow> int" where
  "SetBytes bs = foldl (\<lambda>acc b. acc * 256 + uint b) 0 bs"

text \<open>\<open>big.Int.Bytes\<close>: the big-endian bytes of the absolute value, without leading zeros.\<close>

fun Bytes_nat :: "nat \<Rightarrow> byte list" where
  "Bytes_nat k = (if k = 0 then [] else Bytes_nat (k div 256) @ [of_nat (k mod 256)])"

declare Bytes_nat.simps [simp del]

definition Bytes :: "int \<Rightarrow> byte list" where
  "Bytes a = Bytes_nat (nat \<bar>a\<bar>)"

section \<open>E222.go: the Edwards curve E-222\<close>

record E222 =
  x :: int
  y :: int
  p :: int
  d :: int
  r :: int
  n :: int

definition getR :: int where
  "getR = 1684996666696914987166688442938726735569737456760058294185521417407"

definition getP :: int where
  "getP = 2 ^ 222 - 117"

definition NewE222XY :: "int \<Rightarrow> int \<Rightarrow> E222" where
  "NewE222XY a b = \<lparr>x = a, y = b, p = getP, d = 160102, r = getR, n = getR * 4\<rparr>"

text \<open>
  \<open>sqrt v lsb\<close>: nil is \<open>None\<close>. The test \<open>r * r - v mod P = 0\<close> is inside the branch
  that corrects the least significant bit, as in the source.
\<close>

definition sqrt :: "int \<Rightarrow> nat \<Rightarrow> int option" where
  "sqrt v lsb =
     (if v = 0 then Some 0
      else (let P = getP;
                c = Exp v (P div 4 + 1) P
            in if Bit c 0 \<noteq> lsb
               then (let c' = P - c;
                         bi = Mod (c' * c' - v) P
                     in if bi = 0 then Some c' else None)
               else Some c))"

text \<open>
  \<open>solveForY\<close>: a nil result of \<open>ModInverse\<close> is passed to \<open>Mul\<close>, which panics. The
  radicand is the product \<open>num * denom\<close>, not reduced.
\<close>

definition solveForY :: "int \<Rightarrow> int \<Rightarrow> nat \<Rightarrow> error + int option" where
  "solveForY X P msb =
     (if P = 0 then Inl DivisionByZero
      else (let num = Mod (1 - X ^ 2) P;
                denom = Mod (1 + 160102 * X ^ 2) P
            in case ModInverse denom P of
                 None \<Rightarrow> Inl NilDereference
               | Some denom' \<Rightarrow> Inr (sqrt (num * denom') msb)))"

text \<open>\<open>NewE222X\<close> dereferences the result of \<open>solveForY\<close>: nil panics.\<close>

definition NewE222X :: "int \<Rightarrow> nat \<Rightarrow> error + E222" where
  "NewE222X a msb =
     (case solveForY a getP msb of
        Inl e \<Rightarrow> Inl e
      | Inr None \<Rightarrow> Inl NilDereference
      | Inr (Some b) \<Rightarrow> Inr \<lparr>x = a, y = b, p = getP, d = 160102, r = getR, n = getR * 4\<rparr>)"

definition E222GenPoint :: "nat \<Rightarrow> E222" where
  "E222GenPoint msb =
     \<lparr>x = 2705691079882681090389589001251962954446177367541711474502428610129,
      y = 28, p = getP, d = 160102, r = getR, n = getR * 4\<rparr>"

definition E222IdPoint :: E222 where
  "E222IdPoint = NewE222XY 0 1"

text \<open>
  \<open>getOpposite\<close> has a pointer receiver and calls \<open>e.x.Neg(&e.x)\<close>: \<open>Neg\<close> stores the
  negation in its own receiver, the field \<open>x\<close> of the point \<open>e\<close>, and the new point is
  built from that value. The model returns the receiver after the call and the new point.
\<close>

definition getOpposite :: "E222 \<Rightarrow> E222 \<times> E222" where
  "getOpposite e = (let e' = e\<lparr>x := - x e\<rparr> in (e', NewE222XY (x e') (y e')))"

definition Equals :: "E222 \<Rightarrow> E222 \<Rightarrow> bool" where
  "Equals A B \<longleftrightarrow> x A = x B \<and> y A = y B"

text \<open>
  \<open>Add\<close> reads the operands and writes only integers it allocates. The modulus and the
  coefficient are the fields of the receiver \<open>A\<close>.
\<close>

definition Add :: "E222 \<Rightarrow> E222 \<Rightarrow> error + E222" where
  "Add A B =
     (if p A = 0 then Inl DivisionByZero
      else (let x1 = x A; y1 = y A; x2 = x B; y2 = y B;
                xNum = Mod (x1 * y2 + y1 * x2) (p A);
                mul = d A * x1 * x2 * y1 * y2;
                xDenom = Mod (1 + mul) (p A)
            in case ModInverse xDenom (p A) of
                 None \<Rightarrow> Inl NilDereference
               | Some xDenom' \<Rightarrow>
                   (let newX = Mod (xNum * xDenom') (p A);
                        yNum = Mod (y1 * y2 - x1 * x2) (p A);
                        yDenom = Mod (1 - mul) (p A)
                    in case ModInverse yDenom (p A) of
                         None \<Rightarrow> Inl NilDereference
                       | Some yDenom' \<Rightarrow>
                           Inr (NewE222XY newX (Mod (yNum * yDenom') (p A))))))"

text \<open>
  \<open>SecMul\<close>: one step of the ladder for the bit \<open>i\<close> of \<open>S\<close>, and the loop from
  \<open>i = S.BitLen()\<close> down to \<open>0\<close>. The state is the pair \<open>(r0, r1)\<close>.
\<close>

definition SecMul_step :: "int \<Rightarrow> nat \<Rightarrow> E222 \<times> E222 \<Rightarrow> error + E222 \<times> E222" where
  "SecMul_step S i st =
     (case st of (r0, r1) \<Rightarrow>
        if Bit S i = 1
        then (case Add r0 r1 of Inl e \<Rightarrow> Inl e
              | Inr r0' \<Rightarrow> (case Add r1 r1 of Inl e \<Rightarrow> Inl e
                            | Inr r1' \<Rightarrow> Inr (r0', r1')))
        else (case Add r0 r1 of Inl e \<Rightarrow> Inl e
              | Inr r1' \<Rightarrow> (case Add r0 r0 of Inl e \<Rightarrow> Inl e
                            | Inr r0' \<Rightarrow> Inr (r0', r1'))))"

primrec SecMul_loop :: "int \<Rightarrow> nat \<Rightarrow> E222 \<times> E222 \<Rightarrow> error + E222 \<times> E222" where
  "SecMul_loop S 0 st = SecMul_step S 0 st"
| "SecMul_loop S (Suc i) st =
     (case SecMul_step S (Suc i) st of Inl e \<Rightarrow> Inl e | Inr st' \<Rightarrow> SecMul_loop S i st')"

definition SecMul :: "E222 \<Rightarrow> int \<Rightarrow> error + E222" where
  "SecMul r1 S =
     (case SecMul_loop S (BitLen S) (NewE222XY 0 1, r1) of
        Inl e \<Rightarrow> Inl e
      | Inr (r0, _) \<Rightarrow> Inr r0)"

text \<open>
  The curve equation of the header of E222.go, \<open>x\<^sup>2 + y\<^sup>2 = 1 + d x\<^sup>2 y\<^sup>2\<close> in the field of
  \<open>p\<close> elements, for the coordinates and the parameters a point carries.
\<close>

definition onCurve :: "E222 \<Rightarrow> bool" where
  "onCurve A \<longleftrightarrow>
     ((x A)\<^sup>2 + (y A)\<^sup>2) mod p A = (1 + d A * (x A)\<^sup>2 * (y A)\<^sup>2) mod p A"

section \<open>crypto/sha256\<close>



















section \<open>crypto/elliptic\<close>

text \<open>
  The interface \<open>elliptic.Curve\<close> with the parameters the code reads: the order \<open>N\<close> and
  the base point \<open>(Gx, Gy)\<close>. A point is a pair of integers; the point at infinity is
  \<open>(0, 0)\<close>. \<open>Add\<close> and \<open>ScalarMult\<close> take points from their caller and may panic:
  the NIST curves of the library panic when they are given a point that is not on the
  curve. \<open>IsOnCurve\<close> answers false for such a point, and \<open>ScalarBaseMult\<close> takes none.
\<close>

record Curve =
  N :: int
  Gx :: int
  Gy :: int
  IsOnCurve :: "int \<Rightarrow> int \<Rightarrow> bool"
  CurveAdd :: "int \<Rightarrow> int \<Rightarrow> int \<Rightarrow> int \<Rightarrow> error + int \<times> int"
  ScalarMult :: "int \<Rightarrow> int \<Rightarrow> byte list \<Rightarrow> error + int \<times> int"
  ScalarBaseMult :: "byte list \<Rightarrow> int \<times> int"

text \<open>
  Modelled from the documentation of crypto/elliptic, which is not part of the repository:
  a curve \<open>y\<^sup>2 = x\<^sup>3 + a x + b\<close> over the field of \<open>q\<close> elements, in affine coordinates.
  \<open>IsOnCurve\<close> is false for the pair \<open>(0, 0)\<close>, for a negative coordinate and for one that
  is not below \<open>q\<close>. \<open>Add\<close> and \<open>ScalarMult\<close> accept the points on the curve and the pair
  \<open>(0, 0)\<close>, and panic for every other pair.
\<close>

definition inv_mod :: "int \<Rightarrow> int \<Rightarrow> int" where
  "inv_mod q v = (case ModInverse v q of None \<Rightarrow> 0 | Some w \<Rightarrow> w)"

definition w_on_curve :: "int \<Rightarrow> int \<Rightarrow> int \<Rightarrow> int \<Rightarrow> int \<Rightarrow> bool" where
  "w_on_curve q a b u v \<longleftrightarrow>
     0 \<le> u \<and> u < q \<and> 0 \<le> v \<and> v < q \<and> (u, v) \<noteq> (0, 0) \<and>
     (v * v) mod q = (u * u * u + a * u + b) mod q"

definition w_add :: "int \<Rightarrow> int \<Rightarrow> int \<times> int \<Rightarrow> int \<times> int \<Rightarrow> int \<times> int" where
  "w_add q a P1 P2 =
     (if P1 = (0, 0) then P2
      else if P2 = (0, 0) then P1
      else (case (P1, P2) of ((u1, v1), (u2, v2)) \<Rightarrow>
        if u1 = u2 \<and> (v1 + v2) mod q = 0 then (0, 0)
        else (let l = (if u1 = u2 then (3 * u1 * u1 + a) * inv_mod q (2 * v1)
                       else (v2 - v1) * inv_mod q (u2 - u1)) mod q;
                  u3 = (l * l - u1 - u2) mod q
              in (u3, (l * (u1 - u3) - v1) mod q))))"

definition bits_of :: "byte list \<Rightarrow> bool list" where
  "bits_of k = concat (map (\<lambda>b. map (bit b) [7, 6, 5, 4, 3, 2, 1, 0]) k)"

definition w_mult :: "int \<Rightarrow> int \<Rightarrow> int \<times> int \<Rightarrow> byte list \<Rightarrow> int \<times> int" where
  "w_mult q a P1 k =
     foldl (\<lambda>acc b. let dbl = w_add q a acc acc in if b then w_add q a dbl P1 else dbl)
       (0, 0) (bits_of k)"

definition w_valid :: "int \<Rightarrow> int \<Rightarrow> int \<Rightarrow> int \<times> int \<Rightarrow> bool" where
  "w_valid q a b P1 \<longleftrightarrow> P1 = (0, 0) \<or> w_on_curve q a b (fst P1) (snd P1)"

definition weierstrass :: "int \<Rightarrow> int \<Rightarrow> int \<Rightarrow> int \<Rightarrow> int \<Rightarrow> int \<Rightarrow> Curve" where
  "weierstrass q a b ord gx gy =
     \<lparr>N = ord, Gx = gx, Gy = gy,
      IsOnCurve = w_on_curve q a b,
      CurveAdd = (\<lambda>u1 v1 u2 v2.
        if w_valid q a b (u1, v1) \<and> w_valid q a b (u2, v2)
        then Inr (w_add q a (u1, v1) (u2, v2)) else Inl InvalidPoint),
      ScalarMult = (\<lambda>u v k.
        if w_valid q a b (u, v) then Inr (w_mult q a (u, v) k) else Inl InvalidPoint),
      ScalarBaseMult = (\<lambda>k. w_mult q a (gx, gy) k)\<rparr>"

definition P256 :: Curve where
  "P256 = weierstrass
     115792089210356248762697446949407573530086143415290314195533631308867097853951
     (- 3)
     41058363725152142129326129780047268409114441015993725554835256314039467401291
     115792089210356248762697446949407573529996955224135760342422259061068512044369
     48439561293906451759052585252797914202762949526041747995844080717082404635286
     36134250956749795798585127919587881956611106672985015071877198253568414405109"

section \<open>secp256r1_ecdsa.go\<close>

text \<open>
  \<open>sign_message_ecdsa\<close>, first version (it subtracts one from the reduced nonce). The
  arguments \<open>secp256r1\<close> and \<open>hash\<close> are \<open>elliptic.P256()\<close> and \<open>sha256.Sum256\<close>;
  \<open>rnd\<close> is what \<open>rand.Reader\<close> delivers, of which 40 bytes are read. \<open>Mod\<close> panics for
  a zero order, and \<open>Mul\<close> for the nil that \<open>ModInverse\<close> returns when \<open>k\<close> has no inverse.
\<close>

definition sign_message_ecdsa ::
    "Curve \<Rightarrow> (byte list \<Rightarrow> byte list) \<Rightarrow> byte list \<Rightarrow> int \<Rightarrow> byte list \<Rightarrow> error + int \<times> int" where
  "sign_message_ecdsa secp256r1 hash msg d_a rnd =
     (let n = N secp256r1;
          e = hash msg;
          z = SetBytes (take 32 e);
          k_bytes = take 40 rnd;
          k = SetBytes k_bytes + 1
      in if n = 0 then Inl DivisionByZero
         else (let k = Mod k n - 1;
                   k_bytes = Bytes k;
                   x1 = fst (ScalarBaseMult secp256r1 k_bytes);
                   r = Mod x1 n
               in case ModInverse k n of
                    None \<Rightarrow> Inl NilDereference
                  | Some k_inv \<Rightarrow> Inr (r, Mod (k_inv * (z + r * d_a)) n)))"

text \<open>The second version of the file keeps \<open>k = (k + 1) mod n\<close>.\<close>

definition sign_message_ecdsa_2 ::
    "Curve \<Rightarrow> (byte list \<Rightarrow> byte list) \<Rightarrow> byte list \<Rightarrow> int \<Rightarrow> byte list \<Rightarrow> error + int \<times> int" where
  "sign_message_ecdsa_2 secp256r1 hash msg d_a rnd =
     (let n = N secp256r1;
          e = hash msg;
          z = SetBytes (take 32 e);
          k_bytes = take 40 rnd;
          k = SetBytes k_bytes + 1
      in if n = 0 then Inl DivisionByZero
         else (let k = Mod k n;
                   k_bytes = Bytes k;
                   x1 = fst (ScalarBaseMult secp256r1 k_bytes);
                   r = Mod x1 n
               in case ModInverse k n of
                    None \<Rightarrow> Inl NilDereference
                  | Some k_inv \<Rightarrow> Inr (r, Mod (k_inv * (z + r * d_a)) n)))"

text \<open>
  \<open>verify_ecdsa_sig\<close> (both versions of the file compute the same). \<open>not_neutral\<close>
  compares the pointers \<open>n_x\<close>, \<open>n_y\<close>, which \<open>ScalarBaseMult\<close> has just allocated, with
  the pointers of the key: they differ. \<open>ScalarMult\<close> is called on the key before the
  result of \<open>IsOnCurve\<close> is looked at: a panic of the library there, and one of the later
  \<open>ScalarMult\<close> or \<open>Add\<close>, is the panic of the function. The comparisons of \<open>r\<close> and \<open>s\<close>
  with \<open>one\<close> are strict.
\<close>

definition verify_ecdsa_sig ::
    "Curve \<Rightarrow> (byte list \<Rightarrow> byte list) \<Rightarrow> int \<times> int \<Rightarrow> int \<Rightarrow> int \<Rightarrow> byte list \<Rightarrow> error + bool" where
  "verify_ecdsa_sig secp256r1 hash Q_a sig_r sig_s msg =
     (let n = N secp256r1;
          n_xy = ScalarBaseMult secp256r1 (Bytes n);
          not_neutral = True;
          on_curve = IsOnCurve secp256r1 (fst Q_a) (snd Q_a)
      in case ScalarMult secp256r1 (fst Q_a) (snd Q_a) (Bytes n) of
           Inl e \<Rightarrow> Inl e
         | Inr test_xy \<Rightarrow>
      (let qa_times_n_is_neutral = (fst test_xy = fst n_xy \<and> snd test_xy = snd n_xy)
       in if not_neutral \<and> on_curve \<and> qa_times_n_is_neutral
          then (let one = 1
                in if sig_r < n \<and> sig_r > one \<and> sig_s < n \<and> sig_s > one
                   then (let e = hash msg;
                             z = SetBytes (take 32 e)
                         in case ModInverse sig_s n of
                              None \<Rightarrow> Inl NilDereference
                            | Some s_inv \<Rightarrow>
                                (let zs_inv = z * s_inv;
                                     u1 = Mod zs_inv n;
                                     u2 = Mod (sig_r * s_inv) n;
                                     xy1 = ScalarBaseMult secp256r1 (Bytes u1)
                                 in case ScalarMult secp256r1 (fst Q_a) (snd Q_a) (Bytes u2) of
                                      Inl e \<Rightarrow> Inl e
                                    | Inr xy2 \<Rightarrow>
                                 (case CurveAdd secp256r1 (fst xy1) (snd xy1) (fst xy2) (snd xy2) of
                                    Inl e \<Rightarrow> Inl e
                                  | Inr res \<Rightarrow> Inr (fst res = sig_r))))
                   else Inr False)
          else Inr False))"

section \<open>The Schnorr signatures of the third file\<close>

text \<open>
  Modelled from the spec: the sponge primitives \<open>bytepad\<close>, \<open>encodeString\<close>,
  \<open>rightEncode\<close>, \<open>SpongeAbsorb\<close> and \<open>SpongeSqueeze\<close>, the curve E521 (the fields \<open>n\<close> and
  \<open>r\<close> of its points, its generator \<open>E521GenPoint(0)\<close> and its \<open>SecMul\<close>), the encoder
  \<open>encodeSignature\<close> and the clock are declared in files of the repository that are not
  among the sources. They are the fields of an environment. The spec gives the sponge as
  a keyed hash with an output of \<open>outputBits / 8\<close> bytes, and the curve with a subgroup
  order \<open>r\<close>, the cofactor 4 and the group order \<open>n = 4 r\<close>.
\<close>

record 'st Env =
  bytepad :: "byte list \<Rightarrow> nat \<Rightarrow> byte list"
  encodeString :: "byte list \<Rightarrow> byte list"
  rightEncode :: "nat \<Rightarrow> byte list"
  SpongeAbsorb :: "byte list \<Rightarrow> nat \<Rightarrow> 'st"
  SpongeSqueeze :: "'st \<Rightarrow> nat \<Rightarrow> nat \<Rightarrow> byte list"
  E521_n :: int
  E521_r :: int
  E521GenPoint :: "int \<times> int"
  E521_SecMul :: "int \<times> int \<Rightarrow> int \<Rightarrow> int \<times> int"
  encodeSignature :: "byte list \<times> int \<times> int \<Rightarrow> byte list option"
  now :: string


text \<open>\<open>[]byte(s)\<close> of a string, \<open>big.Int.String\<close> (decimal) and \<open>hex.EncodeToString\<close>.\<close>

definition bytes_of :: "string \<Rightarrow> byte list" where
  "bytes_of s = map (\<lambda>c. of_nat (of_char c)) s"







text \<open>
  \<open>SHAKE\<close> also appends the padding byte to the slice of its caller; here only the
  digest is returned. \<open>KMACXOF256\<close> reaches \<open>cSHAKE256\<close> with the name ''KMAC''.
\<close>

definition SHAKE :: "'st Env \<Rightarrow> byte list \<Rightarrow> nat \<Rightarrow> byte list" where
  "SHAKE env N1 dd =
     (let bytesToPad = 136 - length N1 mod 136;
          N2 = (if bytesToPad = 1 then N1 @ [0x86] else N1 @ [0x06])
      in SpongeSqueeze env (SpongeAbsorb env N2 (2 * dd)) dd (1600 - 2 * dd))"

definition cSHAKE256 :: "'st Env \<Rightarrow> byte list \<Rightarrow> nat \<Rightarrow> string \<Rightarrow> string \<Rightarrow> byte list" where
  "cSHAKE256 env X L N1 S =
     (if N1 = [] \<and> S = [] then SHAKE env X L
      else (let out = bytepad env (encodeString env (bytes_of N1) @ encodeString env (bytes_of S)) 136;
                out = out @ X;
                out = out @ [0x04]
            in SpongeSqueeze env (SpongeAbsorb env out 512) L (1600 - 512)))"

definition KMACXOF256 :: "'st Env \<Rightarrow> byte list \<Rightarrow> byte list \<Rightarrow> nat \<Rightarrow> string \<Rightarrow> byte list" where
  "KMACXOF256 env K X L S =
     (let newX = (bytepad env (encodeString env K) 136 @ X) @ rightEncode env 0
      in cSHAKE256 env newX L ''KMAC'' S)"

text \<open>
  \<open>signWithKey\<close>: the scalar \<open>s\<close> is four times the hash of the passphrase and is not
  reduced. The result is the encoded signature, or nil with an error.
\<close>

definition signWithKey_s :: "'st Env \<Rightarrow> byte list \<Rightarrow> int" where
  "signWithKey_s env pw = SetBytes (KMACXOF256 env pw [] 512 ''K'') * 4"


text \<open>
  \<open>generateKeyPair\<close> fills the key object. The scalar is reduced modulo the field \<open>n\<close>
  of \<open>E521IdPoint()\<close>. A nil signature is dereferenced by \<open>KMACXOF256\<close>.
\<close>

definition generateKeyPair_s :: "'st Env \<Rightarrow> string \<Rightarrow> int" where
  "generateKeyPair_s env password =
     Mod (SetBytes (KMACXOF256 env (bytes_of password) [] 512 ''K'') * 4) (E521_n env)"


section \<open>The law of the curve library, and small instances\<close>


text \<open>
  The curve \<open>y\<^sup>2 = x\<^sup>3 + 2 x + 1\<close> over the field of 5 elements has 7 points and the
  generator \<open>(0, 1)\<close>: an instance of the interface small enough to be evaluated.
\<close>

definition toy :: Curve where "toy = weierstrass 5 2 1 7 0 1"



section \<open>Facts about the arithmetic of math/big and about E222\<close>

lemma Exp_nat_eq: "0 < m \<Longrightarrow> Exp_nat b e m = b ^ e mod m"
proof (induction e rule: less_induct)
  case (less e)
  show ?case
  proof (cases "e = 0")
    case True
    then show ?thesis by (simp add: Exp_nat.simps)
  next
    case False
    define h where "h = e div 2"
    have hlt: "h < e" using False by (simp add: h_def)
    have ih: "Exp_nat b h m = b ^ h mod m" using less hlt by simp
    have sq: "(b ^ h mod m) * (b ^ h mod m) mod m = b ^ (2 * h) mod m"
      by (simp add: mod_mult_eq mult_2 power_add)
    show ?thesis
    proof (cases "odd e")
      case True
      then have e: "e = Suc (2 * h)" by (auto simp: h_def elim: oddE)
      have "Exp_nat b e m = ((b ^ h mod m) * (b ^ h mod m) mod m * b) mod m"
        using False True ih by (subst Exp_nat.simps) (simp add: Let_def h_def)
      also have "\<dots> = (b ^ (2 * h) * b) mod m"
        by (metis sq mod_mult_left_eq)
      finally show ?thesis by (simp add: e mult.commute)
    next
      case False
      then have e: "e = 2 * h" by (auto simp: h_def elim: evenE)
      have "Exp_nat b e m = (b ^ h mod m) * (b ^ h mod m) mod m"
        using \<open>e \<noteq> 0\<close> False ih by (subst Exp_nat.simps) (simp add: Let_def h_def)
      then show ?thesis by (simp only: sq e)
    qed
  qed
qed

lemma Exp_eq: "m \<noteq> 0 \<Longrightarrow> 0 \<le> e \<Longrightarrow> Exp b e m = b ^ nat e mod \<bar>m\<bar>"
  by (simp add: Exp_def Exp_nat_eq)

lemma xgcd_bezw: "xgcd a b = bezw a b"
proof (induction a b rule: xgcd.induct)
  case (1 a b)
  show ?case
  proof (cases "b = 0")
    case True
    then show ?thesis by (simp add: xgcd.simps)
  next
    case False
    then show ?thesis
      using 1 by (subst xgcd.simps, subst bezw.simps) (simp add: case_prod_beta)
  qed
qed

lemma ModInverse_Some:
  assumes "ModInverse g m = Some z"
  shows "0 \<le> z" and "z < \<bar>m\<bar>" and "(g * z) mod \<bar>m\<bar> = 1 mod \<bar>m\<bar>"
proof -
  define m' where "m' = \<bar>m\<bar>"
  define g' where "g' = g mod m'"
  from assms have m0: "m' \<noteq> 0" and co: "gcd g' m' = 1"
    and z: "z = fst (bezw (nat g') (nat m')) mod m'"
    by (auto simp: ModInverse_def Let_def m'_def g'_def xgcd_bezw split: if_splits)
  have mpos: "0 < m'" using m0 by (simp add: m'_def)
  have g0: "0 \<le> g'" using mpos by (simp add: g'_def)
  show "0 \<le> z" using mpos by (simp add: z)
  show "z < \<bar>m\<bar>" using mpos by (simp add: z flip: m'_def)
  have "int (gcd (nat g') (nat m')) = fst (bezw (nat g') (nat m')) * int (nat g') + snd (bezw (nat g') (nat m')) * int (nat m')"
    by (rule bezw_aux)
  moreover have "int (gcd (nat g') (nat m')) = gcd g' m'"
    using g0 mpos by (simp add: gcd_int_def)
  ultimately have "fst (bezw (nat g') (nat m')) * g' + snd (bezw (nat g') (nat m')) * m' = 1"
    using co g0 mpos by simp
  then have "(fst (bezw (nat g') (nat m')) * g' + snd (bezw (nat g') (nat m')) * m') mod m' = 1 mod m'"
    by simp
  then have "(fst (bezw (nat g') (nat m')) * g') mod m' = 1 mod m'"
    by simp
  moreover have "(z * g) mod m' = (fst (bezw (nat g') (nat m')) * g') mod m'"
    unfolding z g'_def by (metis mod_mult_eq mod_mod_trivial)
  ultimately have "(z * g) mod m' = 1 mod m'"
    by simp
  then show "(g * z) mod \<bar>m\<bar> = 1 mod \<bar>m\<bar>"
    by (simp add: mult.commute m'_def)
qed

lemma ModInverse_eqI:
  assumes m: "1 < m" and z0: "0 \<le> z" and zm: "z < m" and gz: "(g * z) mod m = 1"
  shows "ModInverse g m = Some z"
proof -
  have abs: "\<bar>m\<bar> = m" using m by simp
  have "gcd (g mod m) m = 1"
  proof -
    have "gcd (g mod m) m = gcd g m" by (metis gcd.commute gcd_red_int)
    moreover have "gcd g m = 1"
    proof -
      have "gcd g m dvd g * z" by simp
      moreover have "gcd g m dvd m" by simp
      ultimately have "gcd g m dvd (g * z) mod m" by (simp add: dvd_mod)
      then have "gcd g m dvd 1" using gz by simp
      then show ?thesis by simp
    qed
    ultimately show ?thesis by simp
  qed
  then obtain w where w: "ModInverse g m = Some w"
    using m by (simp add: ModInverse_def Let_def)
  from ModInverse_Some[OF w] have w0: "0 \<le> w" and wm: "w < m" and gw: "(g * w) mod m = 1"
    using m by (simp_all add: abs)
  have "w mod m = (w * ((g * z) mod m)) mod m" using gz by simp
  also have "\<dots> = (w * (g * z)) mod m" by (simp add: mod_mult_right_eq)
  also have "\<dots> = ((g * w) * z) mod m" by (simp add: ac_simps)
  also have "\<dots> = (((g * w) mod m) * z) mod m" by (simp only: mod_mult_left_eq)
  also have "\<dots> = z mod m" using gw by simp
  finally have "w mod m = z mod m" .
  then have "w = z" using w0 wm z0 zm by simp
  then show ?thesis using w by simp
qed

lemma ModInverse_zero: "1 < m \<Longrightarrow> ModInverse 0 m = None"
  by (simp add: ModInverse_def Let_def)

lemma ModInverse_None_iff:
  "m \<noteq> 0 \<Longrightarrow> ModInverse g m = None \<longleftrightarrow> gcd g m \<noteq> 1"
proof -
  assume "m \<noteq> 0"
  have "gcd (g mod \<bar>m\<bar>) \<bar>m\<bar> = gcd g m"
    by (metis abs_gcd_int mod_mod_trivial gcd_idem_int gcd_red_int gcd.assoc)
  then show ?thesis using \<open>m \<noteq> 0\<close> by (simp add: ModInverse_def Let_def)
qed

lemma getP_val: "getP = 6739986666787659948666753771754907668409286105635143120275902562187"
  by (simp add: getP_def)

lemma getP_gt1: "1 < getP"
  by (simp add: getP_val)

lemma getP_div4: "getP div 4 + 1 = 2 * 842498333348457493583344221469363458551160763204392890034487820273 + 1"
proof -
  have "getP = 4 * 1684996666696914987166688442938726917102321526408785780068975640546 + 3"
    by (simp add: getP_val)
  then have "getP div 4 = 1684996666696914987166688442938726917102321526408785780068975640546"
    by presburger
  then show ?thesis by simp
qed

lemma power_mod_cong:
  fixes a b m :: int
  assumes "a mod m = b mod m"
  shows "a ^ k mod m = b ^ k mod m"
  by (metis assms power_mod)

lemma minus_one_mod: "(m - 1) mod m = (- 1) mod (m :: int)"
  by (metis add.commute mod_add_self1 uminus_add_conv_diff)

lemma minus_one_power_odd_mod:
  fixes m :: int
  assumes "1 < m" and "odd k"
  shows "(m - 1) ^ k mod m = m - 1"
proof -
  have "(m - 1) ^ k mod m = (- 1) ^ k mod m"
    by (rule power_mod_cong) (rule minus_one_mod)
  also have "\<dots> = (- 1) mod m" using assms(2) by simp
  also have "\<dots> = m - 1" using assms(1)
    by (simp add: zmod_minus1)
  finally show ?thesis .
qed

lemma Exp_minus_one:
  "Exp (getP - 1) (getP div 4 + 1) getP = getP - 1"
proof -
  let ?k = "842498333348457493583344221469363458551160763204392890034487820273 :: nat"
  have e: "nat (getP div 4 + 1) = 2 * ?k + 1"
    by (simp add: getP_div4)
  have "Exp (getP - 1) (getP div 4 + 1) getP = (getP - 1) ^ nat (getP div 4 + 1) mod \<bar>getP\<bar>"
  proof (rule Exp_eq)
    show "getP \<noteq> 0" using getP_gt1 by simp
    show "0 \<le> getP div 4 + 1" by (simp add: getP_div4)
  qed
  also have "\<dots> = (getP - 1) ^ (2 * ?k + 1) mod getP"
    using getP_gt1 by (simp add: e)
  also have "\<dots> = getP - 1"
    by (rule minus_one_power_odd_mod[OF getP_gt1]) simp
  finally show ?thesis .
qed

lemma sqrt_nonroot_full:
  "sqrt (getP - 1) 0 = Some (getP - 1) \<and> ((getP - 1) * (getP - 1)) mod getP \<noteq> (getP - 1) mod getP
   \<and> ((getP - 1) * (getP - 1)) mod getP = 1"
proof -
  have v0: "getP - 1 \<noteq> 0" using getP_gt1 by simp
  have ev: "even (getP - 1)" by (simp add: getP_val)
  have b: "Bit (getP - 1) 0 = 0" using ev by (simp add: Bit_def bit_0)
  have s: "sqrt (getP - 1) 0 = Some (getP - 1)"
    using v0 b by (simp add: sqrt_def Let_def Exp_minus_one)
  have "((getP - 1) * (getP - 1)) mod getP = ((getP - 1) ^ 2) mod getP"
    by (simp add: power2_eq_square)
  also have "\<dots> = (- 1) ^ 2 mod getP"
    by (rule power_mod_cong) (rule minus_one_mod)
  also have "\<dots> = 1" using getP_gt1 by simp
  finally have sq: "((getP - 1) * (getP - 1)) mod getP = 1" .
  have "(getP - 1) mod getP = getP - 1" using getP_gt1 by (intro mod_pos_pos_trivial) simp_all
  moreover have "getP - 1 \<noteq> 1" by (simp add: getP_val)
  ultimately have "(getP - 1) mod getP \<noteq> 1" by simp
  then show ?thesis using s sq by simp
qed

lemma sqrt_nonroot: "sqrt (getP - 1) 0 = Some (getP - 1)"
  using sqrt_nonroot_full by simp

lemma minus_one_squared_mod: "((getP - 1) * (getP - 1)) mod getP = 1"
  using sqrt_nonroot_full by simp

lemma getP_pos: "0 < getP" using getP_gt1 by simp

lemma Mod_getP: "Mod a getP = a mod getP"
  using getP_pos by (simp add: Mod_def)

lemma mod_eqI_cert:
  fixes a b m q :: int
  assumes "a = q * m + b" and "0 \<le> b" and "b < m"
  shows "a mod m = b"
  using assms by (simp add: mod_pos_pos_trivial)

lemma onCurve_NewE222XY:
  "onCurve (NewE222XY a b) \<longleftrightarrow> (a\<^sup>2 + b\<^sup>2) mod getP = (1 + 160102 * a\<^sup>2 * b\<^sup>2) mod getP"
  by (simp add: onCurve_def NewE222XY_def)

lemma onCurve_Id: "onCurve E222IdPoint"
  by (simp add: E222IdPoint_def onCurve_NewE222XY)

lemma onCurve_Gen: "onCurve (E222GenPoint msb)"
proof -
  let ?gx = "2705691079882681090389589001251962954446177367541711474502428610129 :: int"
  have "(?gx\<^sup>2 + 28\<^sup>2) - (1 + 160102 * ?gx\<^sup>2 * 28\<^sup>2)
        = getP * (- 136335890367065087375052945183963799948908009755308863866644104204553369872)"
    by (simp add: getP_val power2_eq_square)
  then have "(?gx\<^sup>2 + 28\<^sup>2) mod getP = (1 + 160102 * ?gx\<^sup>2 * 28\<^sup>2) mod getP"
    by (metis dvd_triv_left mod_eq_dvd_iff)
  then show ?thesis by (simp only: onCurve_def E222GenPoint_def E222.simps)
qed

lemma NewE222XY_off_curve: "\<not> onCurve (NewE222XY 1 1)"
  by (simp add: onCurve_NewE222XY getP_val)


lemma getOpposite_receiver: "fst (getOpposite e) = e\<lparr>x := - x e\<rparr>"
  by (simp add: getOpposite_def Let_def)

lemma getOpposite_Gen_mutates:
  "x (E222GenPoint 0) = 2705691079882681090389589001251962954446177367541711474502428610129 \<and>
   x (fst (getOpposite (E222GenPoint 0))) = - 2705691079882681090389589001251962954446177367541711474502428610129"
  by (simp add: getOpposite_receiver E222GenPoint_def)




lemma ModInverse_cert:
  assumes "1 < m" and "0 \<le> z" and "z < m" and "g * z = q * m + 1"
  shows "ModInverse g m = Some z"
proof (rule ModInverse_eqI[OF assms(1-3)])
  show "g * z mod m = 1" using assms(1,4) by (simp add: mod_pos_pos_trivial)
qed






section \<open>A decompression with the radicand \<open>- 1\<close>\<close>

lemma Exp_minus_one_cong:
  assumes "v mod getP = getP - 1"
  shows "Exp v (getP div 4 + 1) getP = getP - 1"
proof -
  let ?k = "842498333348457493583344221469363458551160763204392890034487820273 :: nat"
  have e: "nat (getP div 4 + 1) = 2 * ?k + 1"
    by (simp add: getP_div4)
  have gm: "(getP - 1) mod getP = getP - 1"
    using getP_gt1 by (intro mod_pos_pos_trivial) simp_all
  have "Exp v (getP div 4 + 1) getP = v ^ nat (getP div 4 + 1) mod \<bar>getP\<bar>"
  proof (rule Exp_eq)
    show "getP \<noteq> 0" using getP_gt1 by simp
    show "0 \<le> getP div 4 + 1" by (simp add: getP_div4)
  qed
  also have "\<dots> = v ^ (2 * ?k + 1) mod getP"
    using getP_gt1 by (simp add: e)
  also have "\<dots> = (getP - 1) ^ (2 * ?k + 1) mod getP"
    by (rule power_mod_cong) (simp only: assms gm)
  also have "\<dots> = getP - 1"
    by (rule minus_one_power_odd_mod[OF getP_gt1]) simp
  finally show ?thesis .
qed

lemma sqrt_minus_one_class:
  assumes "v mod getP = getP - 1"
  shows "sqrt v 0 = Some (getP - 1)"
proof -
  have v0: "v \<noteq> 0" using assms getP_gt1 by auto
  have ev: "even (getP - 1)" by (simp add: getP_val)
  have b: "Bit (getP - 1) 0 = 0" using ev by (simp add: Bit_def bit_0)
  show ?thesis
    using v0 b by (simp add: sqrt_def Let_def Exp_minus_one_cong[OF assms])
qed

lemma decompress_x0:
  defines "x0 \<equiv> 668157572947752501688380718757515498886055576001242463698501807241 :: int"
  defines "num \<equiv> 2840796124164316858333380456824261993768050333278739406725866202563 :: int"
  defines "di \<equiv> 4500382845041012420081584845142907343872119276657612318237976874920 :: int"
  shows "solveForY x0 getP 0 = Inr (sqrt (num * di) 0)"
    and "(num * di) mod getP = getP - 1"
proof -
  let ?den = "3899190542623343090333373314930645674641235772356403713550036359624 :: int"
  have n: "Mod (1 - x0 ^ 2) getP = num"
    unfolding Mod_getP x0_def num_def
    by (rule mod_eqI_cert[where q = "- 66236710005274541898581009173118733906082569429557700748558600089"])
       (simp_all add: getP_val power2_eq_square)
  have dn: "Mod (1 + 160102 * x0 ^ 2) getP = ?den"
    unfolding Mod_getP x0_def
    by (rule mod_eqI_cert[where q = "10604629745264464707046616730634655535831631530811047005245728991381597"])
       (simp_all add: getP_val power2_eq_square)
  have inv: "ModInverse ?den getP = Some di"
    unfolding di_def
    by (rule ModInverse_cert[where q = "2603543759817512766068772024796729696234124455957831059940410466717"])
       (simp_all add: getP_val)
  show "solveForY x0 getP 0 = Inr (sqrt (num * di) 0)"
    using getP_pos by (simp add: solveForY_def Let_def n dn inv)
  show "(num * di) mod getP = getP - 1"
    unfolding num_def di_def
    by (rule mod_eqI_cert[where q = "1896839085223499654012812820346177647637994820699781258297566408202"])
       (simp_all add: getP_val)
qed

lemma off_curve_x0:
  "\<not> onCurve (NewE222XY 668157572947752501688380718757515498886055576001242463698501807241 (getP - 1))"
proof -
  let ?x0 = "668157572947752501688380718757515498886055576001242463698501807241 :: int"
  let ?y = "6739986666787659948666753771754907668409286105635143120275902562186 :: int"
  have l: "(?x0\<^sup>2 + ?y\<^sup>2) mod getP = 3899190542623343090333373314930645674641235772356403713550036359626"
    by (rule mod_eqI_cert[where q = "6806223376792934490565334780928026402315368675064700821024461162273"])
       (simp_all add: getP_val power2_eq_square)
  have r: "(1 + 160102 * ?x0\<^sup>2 * ?y\<^sup>2) mod getP = 3899190542623343090333373314930645674641235772356403713550036359624"
    by (rule mod_eqI_cert[where q = "481740972229704387164830809092964466889788137527773285454802489915677500493581234459410256551488305613028713965189299121068191067034146488764424599847378652651501486247385435637079733070509846346449594067"])
       (simp_all add: getP_val power2_eq_square)
  have y: "getP - 1 = ?y" by (simp add: getP_val)
  show ?thesis
    unfolding onCurve_NewE222XY y l r by simp
qed

lemma NewE222X_x0:
  "NewE222X 668157572947752501688380718757515498886055576001242463698501807241 0
     = Inr (NewE222XY 668157572947752501688380718757515498886055576001242463698501807241 (getP - 1))"
  using decompress_x0 sqrt_minus_one_class[OF decompress_x0(2)]
  by (simp add: NewE222X_def NewE222XY_def)

section \<open>Facts about the signatures\<close>

lemma SetBytes_zeros: "SetBytes (replicate k 0) = 0"
proof -
  have "foldl (\<lambda>acc b. acc * 256 + uint b) 0 (replicate k (0 :: byte)) = 0"
    by (induction k) simp_all
  then show ?thesis by (simp add: SetBytes_def)
qed

lemma SetBytes_snoc: "SetBytes (bs @ [b]) = SetBytes bs * 256 + uint b"
  by (simp add: SetBytes_def)

lemma Bytes_one: "Bytes 1 = [1]"
proof -
  have "Bytes_nat 1 = Bytes_nat 0 @ [of_nat 1]"
    by (subst Bytes_nat.simps) simp
  also have "Bytes_nat 0 = []" by (subst Bytes_nat.simps) simp
  finally show ?thesis by (simp add: Bytes_def)
qed

lemma Bytes_zero: "Bytes 0 = []"
  by (simp add: Bytes_def Bytes_nat.simps)

lemma N_P256: "N P256 = 115792089210356248762697446949407573529996955224135760342422259061068512044369"
  by (simp add: P256_def weierstrass_def)

lemma bits_of_one: "bits_of [1] = [False, False, False, False, False, False, False, True]"
  by (simp add: bits_of_def bit_1_iff)

lemma w_add_inf_left: "w_add q a (0, 0) P1 = P1"
  by (simp add: w_add_def)

lemma w_mult_one: "w_mult q a P1 [1] = P1"
  by (simp add: w_mult_def bits_of_one Let_def w_add_inf_left)

lemma ScalarBaseMult_P256_one:
  "ScalarBaseMult P256 (Bytes 1) =
     (48439561293906451759052585252797914202762949526041747995844080717082404635286,
      36134250956749795798585127919587881956611106672985015071877198253568414405109)"
  by (simp add: P256_def weierstrass_def Bytes_one w_mult_one)

lemma sign_zero_nonce:
  assumes "1 < N c" and "Mod (SetBytes (take 40 rnd) + 1) (N c) = 1"
  shows "sign_message_ecdsa c hash msg d_a rnd = Inl NilDereference"
  using assms by (simp add: sign_message_ecdsa_def Let_def ModInverse_zero)

lemma Mod_small: "0 \<le> a \<Longrightarrow> a < m \<Longrightarrow> Mod a m = a"
  by (simp add: Mod_def mod_pos_pos_trivial)

lemma verify_panics:
  "ScalarMult c (fst Q_a) (snd Q_a) (Bytes (N c)) = Inl e \<Longrightarrow>
   verify_ecdsa_sig c hash Q_a sig_r sig_s msg = Inl e"
  by (simp add: verify_ecdsa_sig_def Let_def)

lemma verify_rejects_small:
  "ScalarMult c (fst Q_a) (snd Q_a) (Bytes (N c)) = Inr t \<Longrightarrow>
   sig_r \<le> 1 \<or> sig_s \<le> 1 \<or> N c \<le> sig_r \<or> N c \<le> sig_s \<Longrightarrow>
   verify_ecdsa_sig c hash Q_a sig_r sig_s msg = Inr False"
  by (auto simp: verify_ecdsa_sig_def Let_def)


lemma verify_not_true_small:
  assumes "sig_r \<le> 1 \<or> sig_s \<le> 1 \<or> N c \<le> sig_r \<or> N c \<le> sig_s"
  shows "verify_ecdsa_sig c hash Q_a sig_r sig_s msg \<noteq> Inr True"
proof (cases "ScalarMult c (fst Q_a) (snd Q_a) (Bytes (N c))")
  case (Inl e)
  then show ?thesis by (simp add: verify_panics)
next
  case (Inr t)
  then show ?thesis using assms by (simp add: verify_rejects_small)
qed


lemma ModInverse_one: "1 < m \<Longrightarrow> ModInverse 1 m = Some 1"
  by (rule ModInverse_eqI) (simp_all add: mod_pos_pos_trivial)

lemma signature_cancels:
  fixes m z rr ri :: int
  assumes inv: "(rr * ri) mod m = 1"
  shows "(z + rr * (((m - z) * ri) mod m)) mod m = 0"
proof -
  have "(rr * (((m - z) * ri) mod m)) mod m = (rr * ((m - z) * ri)) mod m"
    by (rule mod_mult_right_eq)
  also have "\<dots> = ((rr * ri) * (m - z)) mod m" by (simp add: ac_simps)
  also have "\<dots> = ((rr * ri) mod m * (m - z)) mod m" by (simp only: mod_mult_left_eq)
  also have "\<dots> = (m - z) mod m" using inv by simp
  finally have A: "(rr * (((m - z) * ri) mod m)) mod m = (m - z) mod m" .
  have "(z + rr * (((m - z) * ri) mod m)) mod m = (z + (rr * (((m - z) * ri) mod m)) mod m) mod m"
    by (simp only: mod_add_right_eq)
  also have "\<dots> = (z + (m - z) mod m) mod m" by (simp only: A)
  also have "\<dots> = (z + (m - z)) mod m" by (simp only: mod_add_right_eq)
  also have "\<dots> = 0" by simp
  finally show ?thesis .
qed

lemma sign_2_s_zero:
  fixes c :: Curve
  assumes n1: "1 < N c"
    and k1: "Mod (SetBytes (take 40 rnd) + 1) (N c) = 1"
    and rr: "Mod (fst (ScalarBaseMult c (Bytes 1))) (N c) = rr"
    and ri: "ModInverse rr (N c) = Some ri"
    and da: "d_a = Mod ((N c - SetBytes (take 32 (hash msg))) * ri) (N c)"
  shows "sign_message_ecdsa_2 c hash msg d_a rnd = Inr (rr, 0)"
proof -
  define m where "m = N c"
  define z where "z = SetBytes (take 32 (hash msg))"
  have m1: "1 < m" using n1 by (simp add: m_def)
  have absm: "\<bar>m\<bar> = m" using m1 by simp
  have inv: "(rr * ri) mod m = 1"
    using ModInverse_Some(3)[OF ri] m1 by (simp add: m_def absm)
  have "d_a = ((m - z) * ri) mod m"
    by (simp add: da Mod_def m_def z_def absm[unfolded m_def])
  then have s0: "(z + rr * d_a) mod m = 0"
    using signature_cancels[OF inv] by simp
  have "sign_message_ecdsa_2 c hash msg d_a rnd = Inr (rr, Mod (1 * (z + rr * d_a)) m)"
    using n1 k1 rr ModInverse_one[OF n1]
    by (simp add: sign_message_ecdsa_2_def Let_def m_def z_def)
  also have "Mod (1 * (z + rr * d_a)) m = 0"
    using s0 by (simp add: Mod_def absm)
  finally show ?thesis .
qed

lemma sign_1_s_zero:
  fixes c :: Curve
  assumes n1: "2 < N c"
    and k1: "Mod (SetBytes (take 40 rnd) + 1) (N c) = 2"
    and rr: "Mod (fst (ScalarBaseMult c (Bytes 1))) (N c) = rr"
    and ri: "ModInverse rr (N c) = Some ri"
    and da: "d_a = Mod ((N c - SetBytes (take 32 (hash msg))) * ri) (N c)"
  shows "sign_message_ecdsa c hash msg d_a rnd = Inr (rr, 0)"
proof -
  define m where "m = N c"
  define z where "z = SetBytes (take 32 (hash msg))"
  have m1: "1 < m" using n1 by (simp add: m_def)
  have absm: "\<bar>m\<bar> = m" using m1 by simp
  have inv: "(rr * ri) mod m = 1"
    using ModInverse_Some(3)[OF ri] m1 by (simp add: m_def absm)
  have "d_a = ((m - z) * ri) mod m"
    by (simp add: da Mod_def m_def z_def absm[unfolded m_def])
  then have s0: "(z + rr * d_a) mod m = 0"
    using signature_cancels[OF inv] by simp
  have n1': "1 < N c" using n1 by simp
  have "sign_message_ecdsa c hash msg d_a rnd = Inr (rr, Mod (1 * (z + rr * d_a)) m)"
    using n1 k1 rr ModInverse_one[OF n1']
    by (simp add: sign_message_ecdsa_def Let_def m_def z_def)
  also have "Mod (1 * (z + rr * d_a)) m = 0"
    using s0 by (simp add: Mod_def absm)
  finally show ?thesis .
qed






lemma SetBytes_bounds: "0 \<le> SetBytes bs \<and> SetBytes bs < 256 ^ length bs"
proof (induction bs rule: rev_induct)
  case Nil
  then show ?case by (simp add: SetBytes_def)
next
  case (snoc b bs)
  have b: "0 \<le> uint b" "uint b < 256"
    using uint_bounded[of b] by simp_all
  from snoc have "SetBytes bs + 1 \<le> 256 ^ length bs" by simp
  then have "(SetBytes bs + 1) * 256 \<le> 256 ^ length bs * 256"
    by (rule mult_right_mono) simp
  then show ?case using snoc b by (simp add: SetBytes_snoc algebra_simps)
qed

lemma SetBytes_lt:
  assumes "length bs \<le> k"
  shows "SetBytes bs < 256 ^ k"
proof -
  have "SetBytes bs < 256 ^ length bs" using SetBytes_bounds by blast
  also have "(256 :: int) ^ length bs \<le> 256 ^ k"
    using assms by (intro power_increasing) simp_all
  finally show ?thesis .
qed

lemma four_hash_small:
  assumes "length bs \<le> 64"
  shows "0 \<le> SetBytes bs * 4" and "SetBytes bs * 4 < 2 ^ 514"
proof -
  show "0 \<le> SetBytes bs * 4" using SetBytes_bounds[of bs] by simp
  have "SetBytes bs < 256 ^ 64" using assms by (rule SetBytes_lt)
  also have "(256 :: int) ^ 64 = 2 ^ 512" by simp
  finally have "SetBytes bs * 4 < 2 ^ 512 * 4" by simp
  also have "(2 :: int) ^ 512 * 4 = 2 ^ 514" by simp
  finally show "SetBytes bs * 4 < 2 ^ 514" .
qed

lemma generateKeyPair_s_eq:
  assumes len: "length (KMACXOF256 env (bytes_of password) [] 512 ''K'') \<le> 64"
    and big: "2 ^ 514 \<le> E521_r env" and nr: "E521_n env = 4 * E521_r env"
  shows "generateKeyPair_s env password
           = (SetBytes (KMACXOF256 env (bytes_of password) [] 512 ''K'') * 4) mod E521_r env"
    and "signWithKey_s env (bytes_of password) = generateKeyPair_s env password"
proof -
  define h4 where "h4 = SetBytes (KMACXOF256 env (bytes_of password) [] 512 ''K'') * 4"
  have h0: "0 \<le> h4" and h1: "h4 < 2 ^ 514"
    using four_hash_small[OF len] by (simp_all add: h4_def)
  have hr: "h4 < E521_r env" using h1 big by simp
  have rpos: "0 < E521_r env" using h0 hr by simp
  have hn: "h4 < E521_n env" using hr rpos by (simp add: nr)
  have a: "generateKeyPair_s env password = h4"
    using h0 hn by (simp add: generateKeyPair_s_def h4_def Mod_small)
  have b: "h4 mod E521_r env = h4" using h0 hr by (simp add: mod_pos_pos_trivial)
  show "generateKeyPair_s env password
           = (SetBytes (KMACXOF256 env (bytes_of password) [] 512 ''K'') * 4) mod E521_r env"
    using a b by (simp add: h4_def)
  show "signWithKey_s env (bytes_of password) = generateKeyPair_s env password"
    using a by (simp add: signWithKey_s_def h4_def)
qed





lemma ModInverse_Gx_P256:
  "ModInverse 48439561293906451759052585252797914202762949526041747995844080717082404635286 (N P256)
     = Some 33721569520402456289367529045694162334902731715375022578928925136990816427411"
  unfolding N_P256
  by (rule ModInverse_cert[where q = "14106818910079468931313203823824270011973506000731701423752530708349290468305"])
     simp_all

lemma SetBytes_zeros_one: "SetBytes (replicate k 0 @ [1]) = 1"
  by (simp add: SetBytes_snoc SetBytes_zeros)

lemma P256_sign_2_s_zero:
  "sign_message_ecdsa_2 P256 hash msg
     (Mod ((N P256 - SetBytes (take 32 (hash msg)))
           * 33721569520402456289367529045694162334902731715375022578928925136990816427411) (N P256))
     (replicate 40 0)
   = Inr (48439561293906451759052585252797914202762949526041747995844080717082404635286, 0)"
proof (rule sign_2_s_zero[OF _ _ _ ModInverse_Gx_P256 refl])
  show "1 < N P256" by (simp add: N_P256)
  show "Mod (SetBytes (take 40 (replicate 40 0)) + 1) (N P256) = 1"
    by (simp add: SetBytes_zeros N_P256 Mod_def)
  show "Mod (fst (ScalarBaseMult P256 (Bytes 1))) (N P256)
          = 48439561293906451759052585252797914202762949526041747995844080717082404635286"
    by (simp add: ScalarBaseMult_P256_one N_P256 Mod_small)
qed

lemma P256_sign_1_s_zero:
  "sign_message_ecdsa P256 hash msg
     (Mod ((N P256 - SetBytes (take 32 (hash msg)))
           * 33721569520402456289367529045694162334902731715375022578928925136990816427411) (N P256))
     (replicate 39 0 @ [1])
   = Inr (48439561293906451759052585252797914202762949526041747995844080717082404635286, 0)"
proof (rule sign_1_s_zero[OF _ _ _ ModInverse_Gx_P256 refl])
  show "2 < N P256" by (simp add: N_P256)
  show "Mod (SetBytes (take 40 (replicate 39 0 @ [1])) + 1) (N P256) = 2"
    by (simp add: SetBytes_zeros_one N_P256 Mod_def)
  show "Mod (fst (ScalarBaseMult P256 (Bytes 1))) (N P256)
          = 48439561293906451759052585252797914202762949526041747995844080717082404635286"
    by (simp add: ScalarBaseMult_P256_one N_P256 Mod_small)
qed

lemma P256_sign_zero_nonce:
  "sign_message_ecdsa P256 hash msg d_a (replicate 40 0) = Inl NilDereference"
proof (rule sign_zero_nonce)
  show "1 < N P256" by (simp add: N_P256)
  show "Mod (SetBytes (take 40 (replicate 40 0)) + 1) (N P256) = 1"
    by (simp add: SetBytes_zeros N_P256 Mod_def)
qed


lemma toy_key:
  "IsOnCurve toy 1 3 \<and> ScalarMult toy 1 3 (Bytes (N toy)) = Inr (ScalarBaseMult toy (Bytes (N toy)))"
  by code_simp

lemma toy_s_one:
  "ScalarBaseMult toy (Bytes 4) = (3, 2) \<and>
   ScalarMult toy 1 3 (Bytes 3) = Inr (0, 4) \<and>
   CurveAdd toy 3 2 0 4 = Inr (3, 3) \<and>
   verify_ecdsa_sig toy (\<lambda>m. [4]) (1, 3) 3 1 [] = Inr False"
  by code_simp













lemma signWithKey_scalar:
  "signWithKey_s env (bytes_of password) mod \<bar>E521_n env\<bar> = generateKeyPair_s env password"
  by (simp add: generateKeyPair_s_def signWithKey_s_def Mod_def)


section \<open>The ladder at the scalar zero\<close>

lemma one_mod_getP: "1 mod getP = 1"
  using getP_gt1 by (simp add: mod_pos_pos_trivial)

lemma Add_Id_left:
  "Add (NewE222XY 0 1) B = Inr (NewE222XY (x B mod getP) (y B mod getP))"
proof -
  have i1: "ModInverse 1 getP = Some 1" by (rule ModInverse_one[OF getP_gt1])
  show ?thesis
    using getP_pos by (simp add: Add_def NewE222XY_def Let_def Mod_getP one_mod_getP i1)
qed

lemma BitLen_zero: "BitLen 0 = 0"
  by (simp add: BitLen_def BitLen_nat.simps)

lemma SecMul_zero: "SecMul A 0 = Inr E222IdPoint"
proof -
  have e: "NewE222XY (x (NewE222XY 0 1) mod getP) (y (NewE222XY 0 1) mod getP) = NewE222XY 0 1"
    by (simp add: NewE222XY_def one_mod_getP)
  show ?thesis
    by (simp add: SecMul_def BitLen_zero SecMul_step_def Bit_def Add_Id_left e E222IdPoint_def)
qed

section \<open>Claims about E222.go\<close>

text \<open>
  C3: for every nonzero radicand \<open>v\<close> and every wanted least significant bit, the square
  root tests that its candidate \<open>c\<close> has \<open>c\<^sup>2 = v\<close> modulo \<open>p\<close> and fails otherwise, so that a
  value that is not a root is never returned. The code tests only a candidate whose bit it
  had to correct. For the coordinate \<open>x\<close> below, \<open>solveForY\<close> passes a radicand that is \<open>- 1\<close>
  modulo \<open>p\<close>; with the wanted bit 0 the candidate \<open>p - 1\<close> is even, \<open>sqrt\<close> returns it
  untested, its square is 1 and not the radicand, and \<open>NewE222X\<close> returns a point that is
  not on the curve.
\<close>

theorem decompression_returns_a_nonroot:
  "solveForY 668157572947752501688380718757515498886055576001242463698501807241 getP 0
     = Inr (sqrt (2840796124164316858333380456824261993768050333278739406725866202563
                  * 4500382845041012420081584845142907343872119276657612318237976874920) 0) \<and>
   sqrt (2840796124164316858333380456824261993768050333278739406725866202563
          * 4500382845041012420081584845142907343872119276657612318237976874920) 0
     = Some (getP - 1) \<and>
   ((getP - 1) * (getP - 1)) mod getP = 1 \<and>
   (2840796124164316858333380456824261993768050333278739406725866202563
     * 4500382845041012420081584845142907343872119276657612318237976874920) mod getP = getP - 1 \<and>
   getP - 1 \<noteq> 1 \<and>
   NewE222X 668157572947752501688380718757515498886055576001242463698501807241 0
     = Inr (NewE222XY 668157572947752501688380718757515498886055576001242463698501807241 (getP - 1)) \<and>
   \<not> onCurve (NewE222XY 668157572947752501688380718757515498886055576001242463698501807241 (getP - 1))"
proof -
  have "getP - 1 \<noteq> 1" by (simp add: getP_val)
  then show ?thesis
    using decompress_x0 sqrt_minus_one_class [OF decompress_x0(2)] minus_one_squared_mod
      NewE222X_x0 off_curve_x0
    by simp
qed

text \<open>
  C4, as stated: every point built by a public constructor satisfies the curve equation.
  It fails for the explicit construction, which stores any pair: \<open>(1, 1)\<close> is not on the
  curve.
\<close>

theorem NewE222XY_accepts_a_point_off_the_curve:
  "\<not> onCurve (NewE222XY 1 1)"
  by (rule NewE222XY_off_curve)

text \<open>
  C4, amended: the identity and the generator satisfy the curve equation; the explicit
  construction stores the two coordinates as they are given, without a test, so that its
  point satisfies the equation exactly when the given pair does.
\<close>

theorem constructors_and_the_curve_equation:
  "onCurve E222IdPoint \<and> onCurve (E222GenPoint msb) \<and>
   x (NewE222XY a b) = a \<and> y (NewE222XY a b) = b \<and>
   onCurve (NewE222XY a b) = ((a\<^sup>2 + b\<^sup>2) mod getP = (1 + 160102 * a\<^sup>2 * b\<^sup>2) mod getP)"
  using onCurve_Id onCurve_Gen onCurve_NewE222XY by (simp add: NewE222XY_def)

text \<open>
  C8: points are immutable, \<open>getOpposite\<close> and \<open>Add\<close> leave the coordinates of their
  operands unchanged. \<open>getOpposite\<close> negates the coordinate \<open>x\<close> of its receiver in place:
  after the call on the generator, the generator has the negated coordinate.
\<close>

theorem getOpposite_changes_its_receiver:
  "x (E222GenPoint 0) = 2705691079882681090389589001251962954446177367541711474502428610129 \<and>
   x (fst (getOpposite (E222GenPoint 0)))
     = - 2705691079882681090389589001251962954446177367541711474502428610129 \<and>
   fst (getOpposite (E222GenPoint 0)) \<noteq> E222GenPoint 0"
proof -
  have "x (fst (getOpposite (E222GenPoint 0))) \<noteq> x (E222GenPoint 0)"
    using getOpposite_Gen_mutates by simp
  then have "fst (getOpposite (E222GenPoint 0)) \<noteq> E222GenPoint 0"
    by auto
  then show ?thesis using getOpposite_Gen_mutates by simp
qed


section \<open>Claims about secp256r1_ecdsa.go\<close>




text \<open>
  C2: signing never returns \<open>r = 0\<close> or \<open>s = 0\<close>, it draws a fresh nonce instead. Neither
  version of \<open>sign_message_ecdsa\<close> has the loop: for every message there is a private
  scalar with which the nonce 1 gives \<open>s = 0\<close>, and that signature is returned. The nonce
  is 1 for forty zero bytes in the second version, and for the bytes of the number 1 in
  the first.
\<close>

theorem signing_returns_s_zero:
  "sign_message_ecdsa_2 P256 hash msg
     (Mod ((N P256 - SetBytes (take 32 (hash msg)))
           * 33721569520402456289367529045694162334902731715375022578928925136990816427411) (N P256))
     (replicate 40 0)
   = Inr (48439561293906451759052585252797914202762949526041747995844080717082404635286, 0)
   \<and>
   sign_message_ecdsa P256 hash msg
     (Mod ((N P256 - SetBytes (take 32 (hash msg)))
           * 33721569520402456289367529045694162334902731715375022578928925136990816427411) (N P256))
     (replicate 39 0 @ [1])
   = Inr (48439561293906451759052585252797914202762949526041747995844080717082404635286, 0)"
  using P256_sign_2_s_zero P256_sign_1_s_zero by blast
text \<open>
  C6: a signature with \<open>r\<close> and \<open>s\<close> in \<open>[1, n - 1]\<close>, the values 1 included, is not rejected
  for its range and goes to the test of the equation. The code compares with
  \<open>r.Cmp(one) > 0\<close> and \<open>s.Cmp(one) > 0\<close>: whatever the curve, the key and the message, a
  signature with \<open>r = 1\<close> or \<open>s = 1\<close> is never accepted, and for every key on which
  \<open>ScalarMult\<close> returns, as it does for a key that passes the validation, it is rejected
  before the equation is looked at. On the curve of 7 points the key \<open>(1, 3)\<close> passes the
  validation and, with the hash 4, the signature \<open>(3, 1)\<close> satisfies the equation (\<open>4 G\<close> is
  \<open>(3, 2)\<close>, \<open>3 Q\<close> is \<open>(0, 4)\<close> and their sum has the x-coordinate 3) and is rejected.
\<close>

theorem verify_rejects_r_or_s_one:
  "verify_ecdsa_sig c hash Q_a 1 sig_s msg \<noteq> Inr True \<and>
   verify_ecdsa_sig c hash Q_a sig_r 1 msg \<noteq> Inr True \<and>
   (ScalarMult c (fst Q_a) (snd Q_a) (Bytes (N c)) = Inr t \<longrightarrow>
      verify_ecdsa_sig c hash Q_a 1 sig_s msg = Inr False \<and>
      verify_ecdsa_sig c hash Q_a sig_r 1 msg = Inr False) \<and>
   IsOnCurve toy 1 3 \<and>
   ScalarMult toy 1 3 (Bytes (N toy)) = Inr (ScalarBaseMult toy (Bytes (N toy))) \<and>
   ScalarBaseMult toy (Bytes 4) = (3, 2) \<and>
   ScalarMult toy 1 3 (Bytes 3) = Inr (0, 4) \<and>
   CurveAdd toy 3 2 0 4 = Inr (3, 3) \<and>
   verify_ecdsa_sig toy (\<lambda>m. [4]) (1, 3) 3 1 [] = Inr False"
  using verify_not_true_small [of 1 sig_s c hash Q_a msg]
    verify_not_true_small [of sig_r 1 c hash Q_a msg]
    verify_rejects_small [of c Q_a t 1 sig_s hash msg]
    verify_rejects_small [of c Q_a t sig_r 1 hash msg] toy_s_one toy_key
  by simp

theorem verify_rejects_r_or_s_one_witness:
  "ScalarMult toy (fst (1 :: int, 3 :: int)) (snd (1 :: int, 3 :: int)) (Bytes (N toy))
     = Inr (ScalarBaseMult toy (Bytes (N toy))) \<and>
   verify_ecdsa_sig toy (\<lambda>m. [2]) (1, 3) 1 5 [] = Inr False \<and>
   verify_ecdsa_sig toy (\<lambda>m. [2]) (1, 3) 3 1 [] = Inr False"
proof -
  have nq: "ScalarMult toy (fst (1 :: int, 3 :: int)) (snd (1 :: int, 3 :: int)) (Bytes (N toy))
               = Inr (ScalarBaseMult toy (Bytes (N toy)))"
    using toy_key by simp
  show ?thesis
    using verify_rejects_r_or_s_one [of toy "\<lambda>m. [2]" "(1, 3)" 5 "[]" 3
        "ScalarBaseMult toy (Bytes (N toy))"] nq
    by blast
qed

text \<open>
  C10: some value of the 40 nonce bytes of the first \<open>sign_message_ecdsa\<close> gives the nonce
  \<open>k = 0\<close>, which has no inverse modulo \<open>n\<close>, so that \<open>s\<close> cannot be computed: with forty
  zero bytes \<open>k\<close> is 0, \<open>ModInverse\<close> returns nil and signing panics, for every message and
  private scalar.
\<close>

theorem nonce_zero_is_drawn:
  "\<exists>rnd. length rnd = 40
      \<and> Mod (SetBytes (take 40 rnd) + 1) (N P256) - 1 = 0
      \<and> ModInverse 0 (N P256) = None
      \<and> (\<forall>hash msg d_a. sign_message_ecdsa P256 hash msg d_a rnd = Inl NilDereference)"
proof (intro exI conjI allI)
  show "length (replicate 40 (0 :: byte)) = 40" by simp
  show "Mod (SetBytes (take 40 (replicate 40 0)) + 1) (N P256) - 1 = 0"
    by (simp add: SetBytes_zeros N_P256 Mod_def)
  show "ModInverse 0 (N P256) = None"
    by (rule ModInverse_zero) (simp add: N_P256)
  show "sign_message_ecdsa P256 hash msg d_a (replicate 40 0) = Inl NilDereference" for hash msg d_a
    by (rule P256_sign_zero_nonce)
qed



end
